theory Spec2Isabelle
  imports Main "HOL-Library.Multiset"
begin

section \<open>Data model (types.ts)\<close>

text \<open>
  The enum \<^verbatim>\<open>ProcessStatus\<close> and the interfaces \<^verbatim>\<open>ImageFile\<close> and
  \<^verbatim>\<open>ProcessedImageResponse\<close> of types.ts. A browser \<^verbatim>\<open>File\<close> is modelled by the
  four properties the application reads or sets: its name, its last-modified time (an
  integral number of milliseconds), its declared media type and its bytes.
\<close>

datatype ProcessStatus = IDLE | PROCESSING | SUCCESS | ERROR

type_synonym blob = string

record File =
  name :: string
  lastModified :: int
  type :: string
  content :: blob

record ImageFile =
  id' :: string
  file' :: File
  previewUrl :: string

record ProcessedImageResponse =
  filename :: string
  processed_image_b64 :: string
  content_type :: string

section \<open>The JavaScript platform functions the handlers rely on\<close>

text \<open>
  Number-to-string conversion as a template literal performs it on an integral number.
  Below \<open>2\<^sup>5\<^sup>3\<close> in magnitude (the safe integers, where every integer is a Number of its
  own) the result is the decimal digits, with a leading minus sign for a negative number.
  From there on JavaScript prints the shortest digits that read back as the same Number,
  and exponent notation from \<open>10\<^sup>2\<^sup>1\<close>: that output is left unspecified here
  (\<open>undefined i\<close> is some string that depends on \<open>i\<close> alone), so that nothing below
  rests on it. Times in milliseconds since 1970 are safe integers for some 285 000 years.
  Array indices and status codes, printed by \<open>decimal\<close>, are far below the bound.
\<close>

definition digit :: "nat \<Rightarrow> char" where
  "digit d = ''0123456789'' ! d"

function decimal :: "nat \<Rightarrow> string" where
  "decimal n = (if n < 10 then [digit n] else decimal (n div 10) @ [digit (n mod 10)])"
  by pat_completeness auto
termination
  by (relation "measure (\<lambda>n. n)") auto

declare decimal.simps [simp del]

definition numberToString :: "int \<Rightarrow> string" where
  "numberToString i =
     (if \<bar>i\<bar> < 2 ^ 53
      then (if i < 0 then CHR ''-'' # decimal (nat (- i)) else decimal (nat i))
      else undefined i)"

text \<open>\<^verbatim>\<open>s.startsWith(p)\<close>.\<close>

definition startsWith :: "string \<Rightarrow> string \<Rightarrow> bool" where
  "startsWith s p = (take (length p) s = p)"

section \<open>Application state and handlers (App.tsx)\<close>

text \<open>
  The four \<^verbatim>\<open>useState\<close> cells of \<^verbatim>\<open>App\<close> that carry the workflow, together with the
  document's blob URL store: \<^verbatim>\<open>URL.createObjectURL\<close> registers a fresh URL there and only
  \<^verbatim>\<open>URL.revokeObjectURL\<close> removes one. \<open>blobUrls\<close> lists the URLs that are live, in the
  order of their allocation; \<open>blobCounter\<close> numbers the next URL, which stands for the
  browser's choice of a fresh one. The two view-only cells \<^verbatim>\<open>isDragging\<close> and
  \<^verbatim>\<open>modalImage\<close> are read by no handler below and are left out.
\<close>

record state =
  selectedFiles :: "ImageFile list"
  processedFiles :: "ImageFile list"
  status :: ProcessStatus
  error :: "string option"
  blobUrls :: "string list"
  blobCounter :: nat

definition initial :: state where
  "initial = \<lparr>selectedFiles = [], processedFiles = [], status = IDLE, error = None,
     blobUrls = [], blobCounter = 0\<rparr>"

definition isProcessing :: "state \<Rightarrow> bool" where
  "isProcessing s = (status s = PROCESSING)"

definition hasFilesSelected :: "state \<Rightarrow> bool" where
  "hasFilesSelected s = (length (selectedFiles s) > 0)"

subsection \<open>handleFiles\<close>

definition blobUrl :: "nat \<Rightarrow> string" where
  "blobUrl n = ''blob:'' @ decimal n"

text \<open>
  The template literal \<^verbatim>\<open>`${file.name}-${file.lastModified}`\<close>, and the
  \<^verbatim>\<open>.map\<close> of handleFiles: one \<^verbatim>\<open>ImageFile\<close> per image file, each with an object
  URL allocated in turn (\<open>n\<close> is the store's counter when the element is reached).
\<close>

definition fileId :: "File \<Rightarrow> string" where
  "fileId f = name f @ ''-'' @ numberToString (lastModified f)"

fun newImageFiles :: "nat \<Rightarrow> File list \<Rightarrow> ImageFile list" where
  "newImageFiles n [] = []"
| "newImageFiles n (f # fs) =
     \<lparr>id' = fileId f, file' = f, previewUrl = blobUrl n\<rparr> # newImageFiles (Suc n) fs"

text \<open>
  \<^verbatim>\<open>handleFiles(files: FileList | null)\<close>: \<open>None\<close> is \<^verbatim>\<open>null\<close>. The updater passed to
  \<^verbatim>\<open>setSelectedFiles\<close> runs on the current list.
\<close>

definition handleFiles :: "File list option \<Rightarrow> state \<Rightarrow> state" where
  "handleFiles files s =
     (case files of
        None \<Rightarrow> s
      | Some fs \<Rightarrow>
          (let images = filter (\<lambda>f. startsWith (type f) ''image/'') fs;
               new = newImageFiles (blobCounter s) images;
               existingIds = set (map id' (selectedFiles s));
               trulyNewFiles = filter (\<lambda>f. id' f \<notin> existingIds) new
           in s\<lparr>selectedFiles := selectedFiles s @ trulyNewFiles,
                 blobUrls := blobUrls s @ map previewUrl new,
                 blobCounter := blobCounter s + length images\<rparr>))"

subsection \<open>JSON values as \<^verbatim>\<open>response.json()\<close> yields them\<close>

text \<open>
  TypeScript's annotations are erased: what \<^verbatim>\<open>response.json()\<close> resolves to is whatever
  JSON value the body holds. Numbers are restricted to integral ones (the handlers only
  ever test a number for truth or print it). An object is its member list in source order;
  on a repeated key the parser keeps the last member.
\<close>

datatype json =
  JNull | JBool bool | JNum int | JStr string | JArr "json list" | JObj "(string \<times> json) list"

text \<open>
  Reading the property \<open>k\<close> of a parsed value; \<open>None\<close> is \<^verbatim>\<open>undefined\<close>. Only the keys
  \<^verbatim>\<open>detail\<close>, \<^verbatim>\<open>filename\<close>, \<^verbatim>\<open>processed_image_b64\<close> and \<^verbatim>\<open>content_type\<close> are read this
  way, none of which a string, number, boolean or array has. Reading a property of
  \<^verbatim>\<open>null\<close> throws a TypeError; its message is the engine's, here in V8's wording.
\<close>

definition property :: "json \<Rightarrow> string \<Rightarrow> json option" where
  "property j k = (case j of JObj kvs \<Rightarrow> map_of (rev kvs) k | _ \<Rightarrow> None)"

definition nullRead :: "string \<Rightarrow> string" where
  "nullRead k = ''Cannot read properties of null (reading '' @ [CHR 0x27] @ k @ [CHR 0x27] @ '')''"

text \<open>Truthiness, as \<^verbatim>\<open>||\<close> and \<^verbatim>\<open>?:\<close> test it.\<close>

fun truthy :: "json option \<Rightarrow> bool" where
  "truthy None = False"
| "truthy (Some JNull) = False"
| "truthy (Some (JBool b)) = b"
| "truthy (Some (JNum n)) = (n \<noteq> 0)"
| "truthy (Some (JStr s)) = (s \<noteq> [])"
| "truthy (Some (JArr xs)) = True"
| "truthy (Some (JObj kvs)) = True"

text \<open>
  String conversion, as a template literal and the \<^verbatim>\<open>Error\<close> and \<^verbatim>\<open>File\<close> constructors
  perform it; \<open>None\<close> stands for the TypeError it throws. An array is the comma-joined
  conversion of its elements, a \<^verbatim>\<open>null\<close> element giving the empty string. An object gives
  \<^verbatim>\<open>[object Object]\<close>, unless a member named \<^verbatim>\<open>toString\<close> hides the inherited method:
  then no conversion to a primitive exists.
\<close>

fun join :: "string list \<Rightarrow> string" where
  "join [] = []"
| "join [x] = x"
| "join (x # y # ys) = x @ '','' @ join (y # ys)"

fun toString :: "json \<Rightarrow> string option" where
  "toString JNull = Some ''null''"
| "toString (JBool b) = Some (if b then ''true'' else ''false'')"
| "toString (JNum n) = Some (numberToString n)"
| "toString (JStr s) = Some s"
| "toString (JArr xs) =
     (let parts = map (\<lambda>x. if x = JNull then Some [] else toString x) xs
      in if None \<in> set parts then None else Some (join (map the parts)))"
| "toString (JObj kvs) =
     (if ''toString'' \<in> fst ` set kvs then None else Some ''[object Object]'')"

definition String :: "json option \<Rightarrow> string option" where
  "String v = (case v of None \<Rightarrow> Some ''undefined'' | Some j \<Rightarrow> toString j)"

definition cannotConvert :: string where
  "cannotConvert = ''Cannot convert object to primitive value''"

subsection \<open>The outcome of \<^verbatim>\<open>fetch\<close>\<close>

text \<open>
  A value a \<^verbatim>\<open>catch\<close> clause can receive: an \<^verbatim>\<open>Error\<close> instance with its message, or
  anything else. \<^verbatim>\<open>fetch\<close> either rejects (no response was obtained) or resolves to a
  response, of which the handler reads \<^verbatim>\<open>ok\<close>, \<^verbatim>\<open>status\<close> and \<^verbatim>\<open>json()\<close>. \<open>jsonBody\<close> is
  \<open>Inl m\<close> when \<^verbatim>\<open>json()\<close> rejects (the body is not JSON; \<open>m\<close> is the SyntaxError's message)
  and \<open>Inr j\<close> when it resolves to \<open>j\<close>.
\<close>

datatype thrown = ErrorObject string | OtherValue

record response =
  statusCode :: nat
  jsonBody :: "string + json"

definition ok :: "response \<Rightarrow> bool" where
  "ok r = (200 \<le> statusCode r \<and> statusCode r \<le> 299)"

datatype fetchResult = Rejected thrown | Resolved response

subsection \<open>handleProcessImages\<close>

text \<open>
  The callback of \<^verbatim>\<open>processedData.map\<close>, at element \<open>item\<close> with index \<open>index\<close>.
  \<open>selected\<close> is the \<^verbatim>\<open>selectedFiles\<close> the handler closed over. \<^verbatim>\<open>new File([], n)\<close> has no
  bytes, the empty media type and the current time as \<^verbatim>\<open>lastModified\<close>: \<open>now index\<close> is
  the clock's reading when this element is reached. The three fields of the object
  literal are \<open>newId\<close>, \<open>newFile\<close> and \<open>newUrl\<close>; each is \<open>None\<close> when a string conversion
  in it throws, and then the callback throws that TypeError.
\<close>

definition processItem :: "ImageFile list \<Rightarrow> (nat \<Rightarrow> int) \<Rightarrow> json \<Rightarrow> nat \<Rightarrow> thrown + ImageFile" where
  "processItem selected now item index =
     (if item = JNull then Inl (ErrorObject (nullRead ''filename''))
      else
        (let originalFile =
               find (\<lambda>f. Some (JStr (name (file' f))) = property item ''filename'') selected;
             newId = (case originalFile of
                        Some orig \<Rightarrow> Some (id' orig)
                      | None \<Rightarrow> map_option (\<lambda>n. n @ ''-'' @ decimal index)
                                 (String (property item ''filename'')));
             newFile = (case originalFile of
                          Some orig \<Rightarrow> Some (file' orig)
                        | None \<Rightarrow> map_option
                                   (\<lambda>n. \<lparr>name = n, lastModified = now index, type = [], content = []\<rparr>)
                                   (String (property item ''filename'')));
             newUrl = (case (String (property item ''content_type''),
                             String (property item ''processed_image_b64'')) of
                         (Some c, Some b) \<Rightarrow> Some (''data:'' @ c @ '';base64,'' @ b)
                       | _ \<Rightarrow> None)
         in case (newId, newFile, newUrl) of
              (Some i, Some f, Some u) \<Rightarrow> Inr \<lparr>id' = i, file' = f, previewUrl = u\<rparr>
            | _ \<Rightarrow> Inl (ErrorObject cannotConvert)))"

text \<open>\<^verbatim>\<open>Array.prototype.map\<close> with the element's index; a throwing callback ends it.\<close>

fun mapIndexed :: "(json \<Rightarrow> nat \<Rightarrow> thrown + 'b) \<Rightarrow> nat \<Rightarrow> json list \<Rightarrow> thrown + 'b list" where
  "mapIndexed f i [] = Inr []"
| "mapIndexed f i (x # xs) =
     (case f x i of
        Inl e \<Rightarrow> Inl e
      | Inr y \<Rightarrow> (case mapIndexed f (Suc i) xs of Inl e \<Rightarrow> Inl e | Inr ys \<Rightarrow> Inr (y # ys)))"

text \<open>
  \<^verbatim>\<open>const newProcessedFiles = processedData.map(...)\<close>: only an array has a callable
  \<^verbatim>\<open>map\<close>.
\<close>

definition newProcessedFiles :: "ImageFile list \<Rightarrow> (nat \<Rightarrow> int) \<Rightarrow> json \<Rightarrow> thrown + ImageFile list" where
  "newProcessedFiles selected now processedData =
     (case processedData of
        JArr items \<Rightarrow> mapIndexed (processItem selected now) 0 items
      | JNull \<Rightarrow> Inl (ErrorObject (nullRead ''map''))
      | _ \<Rightarrow> Inl (ErrorObject ''processedData.map is not a function''))"

text \<open>The \<^verbatim>\<open>if (!response.ok)\<close> block: it always throws.\<close>

definition notOk :: "response \<Rightarrow> thrown" where
  "notOk r =
     (let errorData = (case jsonBody r of
                         Inl m \<Rightarrow> JObj [(''detail'', JStr ''An unknown error occurred on the server.'')]
                       | Inr j \<Rightarrow> j)
      in if errorData = JNull then ErrorObject (nullRead ''detail'')
         else if truthy (property errorData ''detail'')
         then (case String (property errorData ''detail'') of
                 Some message \<Rightarrow> ErrorObject message
               | None \<Rightarrow> ErrorObject cannotConvert)
         else ErrorObject (''Server responded with status: '' @ decimal (statusCode r)))"

text \<open>The body of the \<^verbatim>\<open>try\<close> from the point where \<^verbatim>\<open>fetch\<close> settles.\<close>

definition tryBlock :: "ImageFile list \<Rightarrow> (nat \<Rightarrow> int) \<Rightarrow> fetchResult \<Rightarrow> thrown + ImageFile list" where
  "tryBlock selected now res =
     (case res of
        Rejected e \<Rightarrow> Inl e
      | Resolved r \<Rightarrow>
          if \<not> ok r then Inl (notOk r)
          else (case jsonBody r of
                  Inl m \<Rightarrow> Inl (ErrorObject m)
                | Inr processedData \<Rightarrow> newProcessedFiles selected now processedData))"

text \<open>
  The handler runs in two parts. Up to \<^verbatim>\<open>await fetch\<close> it runs at once:
  \<open>handleProcessImages_send\<close> returns the new state and the multipart body it posted to
  \<^verbatim>\<open>{API_URL}/api/process\<close> (field name, bytes, file name of each part), or \<open>None\<close> when it
  returned before sending. \<open>handleProcessImages_settle\<close> is the rest, run on the state
  of that later moment with the \<^verbatim>\<open>selectedFiles\<close> the handler closed over.
\<close>

type_synonym formData = "(string \<times> blob \<times> string) list"

definition handleProcessImages_send :: "state \<Rightarrow> state \<times> formData option" where
  "handleProcessImages_send s =
     (if \<not> hasFilesSelected s then (s, None)
      else (s\<lparr>status := PROCESSING, error := None\<rparr>,
            Some (map (\<lambda>imageFile. (''files'', content (file' imageFile), name (file' imageFile)))
                    (selectedFiles s))))"

definition handleProcessImages_settle ::
    "ImageFile list \<Rightarrow> (nat \<Rightarrow> int) \<Rightarrow> fetchResult \<Rightarrow> state \<Rightarrow> state" where
  "handleProcessImages_settle selected now res s =
     (case tryBlock selected now res of
        Inr new \<Rightarrow> s\<lparr>processedFiles := new, status := SUCCESS\<rparr>
      | Inl err \<Rightarrow>
          s\<lparr>error := Some (case err of
                             ErrorObject m \<Rightarrow> m
                           | OtherValue \<Rightarrow> ''Failed to process images. Please check the backend server.''),
            status := ERROR\<rparr>)"

text \<open>A whole run of the handler, with no other event between its two parts.\<close>

definition handleProcessImages :: "(nat \<Rightarrow> int) \<Rightarrow> fetchResult \<Rightarrow> state \<Rightarrow> state" where
  "handleProcessImages now res s =
     (case handleProcessImages_send s of
        (s', None) \<Rightarrow> s'
      | (s', Some body) \<Rightarrow> handleProcessImages_settle (selectedFiles s) now res s')"

subsection \<open>handleReset and the view\<close>

definition handleReset :: "state \<Rightarrow> state" where
  "handleReset s = s\<lparr>selectedFiles := [], processedFiles := [], status := IDLE, error := None\<rparr>"

text \<open>The \<^verbatim>\<open>onClick\<close> of the button Clear Selection: \<^verbatim>\<open>setSelectedFiles([])\<close>.\<close>

definition clearSelection :: "state \<Rightarrow> state" where
  "clearSelection s = s\<lparr>selectedFiles := []\<rparr>"

text \<open>
  \<^verbatim>\<open>renderContent\<close>, reduced to the controls it puts on the page, each with its
  \<^verbatim>\<open>disabled\<close> flag: the upload zone (file input and drop target), the buttons Clear
  Selection and Process, and the button Process More Images.
\<close>

datatype control = UploadZone | ClearSelectionButton | ProcessButton | ProcessMoreButton

definition renderContent :: "state \<Rightarrow> (control \<times> bool) list" where
  "renderContent s =
     (case status s of
        PROCESSING \<Rightarrow> []
      | SUCCESS \<Rightarrow> [(ProcessMoreButton, False)]
      | _ \<Rightarrow> (UploadZone, False) #
             (if hasFilesSelected s
              then [(ClearSelectionButton, False), (ProcessButton, isProcessing s)]
              else []))"

text \<open>
  A user event reaches its handler only through a control that is rendered and not
  disabled; otherwise nothing happens.
\<close>

datatype event = PickFiles "File list option" | ClickClearSelection | ClickProcess | ClickProcessMore

fun controlOf :: "event \<Rightarrow> control" where
  "controlOf (PickFiles files) = UploadZone"
| "controlOf ClickClearSelection = ClearSelectionButton"
| "controlOf ClickProcess = ProcessButton"
| "controlOf ClickProcessMore = ProcessMoreButton"

fun handler :: "event \<Rightarrow> state \<Rightarrow> state \<times> formData option" where
  "handler (PickFiles files) s = (handleFiles files s, None)"
| "handler ClickClearSelection s = (clearSelection s, None)"
| "handler ClickProcess s = handleProcessImages_send s"
| "handler ClickProcessMore s = (handleReset s, None)"

definition dispatch :: "event \<Rightarrow> state \<Rightarrow> state \<times> formData option" where
  "dispatch e s = (if (controlOf e, False) \<in> set (renderContent s) then handler e s else (s, None))"

text \<open>The body of a well-typed \<^verbatim>\<open>ProcessedImageResponse\<close>, as the service sends it.\<close>

definition toJson :: "ProcessedImageResponse \<Rightarrow> json" where
  "toJson r = JObj [(''filename'', JStr (filename r)),
                    (''processed_image_b64'', JStr (processed_image_b64 r)),
                    (''content_type'', JStr (content_type r))]"

section \<open>Concrete inputs of the examples\<close>

definition a_png :: File where
  "a_png = \<lparr>name = ''a.png'', lastModified = 1, type = ''image/png'', content = ''A''\<rparr>"

definition a_png_twin :: File where
  "a_png_twin = \<lparr>name = ''a.png'', lastModified = 1, type = ''image/png'', content = ''B''\<rparr>"

definition b_png :: File where
  "b_png = \<lparr>name = ''b.png'', lastModified = 2, type = ''image/png'', content = ''B''\<rparr>"


definition staged_a :: state where
  "staged_a = handleFiles (Some [a_png]) initial"

definition staged_ab :: "ImageFile list" where
  "staged_ab = selectedFiles (handleFiles (Some [a_png, b_png]) initial)"

definition result_a :: ProcessedImageResponse where
  "result_a = \<lparr>filename = ''a.png'', processed_image_b64 = ''AA=='', content_type = ''image/png''\<rparr>"

definition result_b :: ProcessedImageResponse where
  "result_b = \<lparr>filename = ''b.png'', processed_image_b64 = ''BB=='', content_type = ''image/png''\<rparr>"

definition result_z :: ProcessedImageResponse where
  "result_z = \<lparr>filename = ''z.png'', processed_image_b64 = ''ZZ=='', content_type = ''image/jpeg''\<rparr>"

definition response_200 :: response where
  "response_200 = \<lparr>statusCode = 200, jsonBody = Inr (JArr (map toJson [result_a]))\<rparr>"

definition response_500 :: response where
  "response_500 = \<lparr>statusCode = 500, jsonBody = Inr (JObj [(''detail'', JStr ''model unavailable'')])\<rparr>"

definition response_500_empty :: response where
  "response_500_empty = \<lparr>statusCode = 500, jsonBody = Inr (JObj [])\<rparr>"

definition response_500_html :: response where
  "response_500_html = \<lparr>statusCode = 500, jsonBody = Inl ''Unexpected token < in JSON at position 0''\<rparr>"

definition clock :: "nat \<Rightarrow> int" where
  "clock i = 1000 + int i"

section \<open>Evaluation and basic facts\<close>

lemma decimal_small: "n < 10 \<Longrightarrow> decimal n = [digit n]"
  by (subst decimal.simps) simp

lemma decimal_large: "10 \<le> n \<Longrightarrow> decimal n = decimal (n div 10) @ [digit (n mod 10)]"
  by (subst decimal.simps) simp

lemmas evaluate = decimal_small decimal_large digit_def numberToString_def startsWith_def
  fileId_def blobUrl_def

lemma map_id_newImageFiles: "map id' (newImageFiles n fs) = map fileId fs"
  by (induction fs arbitrary: n) simp_all


lemma selectedFiles_handleFiles:
  "selectedFiles (handleFiles (Some fs) s) =
     selectedFiles s @
     filter (\<lambda>e. id' e \<notin> id' ` set (selectedFiles s))
       (newImageFiles (blobCounter s) (filter (\<lambda>f. startsWith (type f) ''image/'') fs))"
  by (simp add: handleFiles_def Let_def)

lemma ids_after_handleFiles:
  "id' ` set (selectedFiles (handleFiles (Some fs) s)) =
     id' ` set (selectedFiles s) \<union> fileId ` {f \<in> set fs. startsWith (type f) ''image/''}"
proof -
  let ?imgs = "filter (\<lambda>f. startsWith (type f) ''image/'') fs"
  have "id' ` set (newImageFiles (blobCounter s) ?imgs) = fileId ` set ?imgs"
    using map_id_newImageFiles [of "blobCounter s" ?imgs] by (metis set_map)
  moreover have "id' ` set (selectedFiles s) \<union>
      id' ` {x \<in> set (newImageFiles (blobCounter s) ?imgs). id' x \<notin> id' ` set (selectedFiles s)} =
      id' ` set (selectedFiles s) \<union> id' ` set (newImageFiles (blobCounter s) ?imgs)"
    by blast
  ultimately show ?thesis
    by (simp add: selectedFiles_handleFiles image_Un)
qed

lemma handleFiles_twice:
  "selectedFiles (handleFiles (Some fs) (handleFiles (Some fs) s)) =
     selectedFiles (handleFiles (Some fs) s)"
proof -
  let ?s1 = "handleFiles (Some fs) s"
  let ?imgs = "filter (\<lambda>f. startsWith (type f) ''image/'') fs"
  have "id' ` set (newImageFiles (blobCounter ?s1) ?imgs) = fileId ` set ?imgs"
    using map_id_newImageFiles [of "blobCounter ?s1" ?imgs] by (metis set_map)
  then have "\<forall>e \<in> set (newImageFiles (blobCounter ?s1) ?imgs). id' e \<in> id' ` set (selectedFiles ?s1)"
    unfolding ids_after_handleFiles by auto
  then have "filter (\<lambda>e. id' e \<notin> id' ` set (selectedFiles ?s1))
       (newImageFiles (blobCounter ?s1) ?imgs) = []"
    by (simp add: filter_empty_conv)
  then show ?thesis
    by (subst selectedFiles_handleFiles) simp
qed

section \<open>The staging store: handleFiles\<close>

text \<open>
  C1 (the code departs from the claim). The claim: no two staged entries ever share an id,
  in particular after one call of handleFiles whose list holds two files of the same name
  and the same last-modified time. handleFiles filters the new entries against the ids
  already staged only, never against each other: from the initial state, one call with two
  files named a.png, both last modified at time 1, stages two entries with the id a.png-1.
\<close>

theorem handleFiles_one_call_same_id_twice:
  "map id' (selectedFiles (handleFiles
      (Some [\<lparr>name = ''a.png'', lastModified = 1, type = ''image/png'', content = ''A''\<rparr>,
             \<lparr>name = ''a.png'', lastModified = 1, type = ''image/png'', content = ''B''\<rparr>])
      initial)) = [''a.png-1'', ''a.png-1'']"
  by (simp add: handleFiles_def initial_def evaluate)

text \<open>
  C8 (the code departs from the claim, by the defect of C1). The claim: adding the same
  file in a second call leaves the store unchanged, with exactly one entry of that id. The
  second call does drop the file, as every file whose id is staged (\<open>handleFiles_twice\<close>),
  and after a.png was picked alone a second pick leaves the one entry. But when the first
  call held a.png together with a second file of that name and time, it staged both, and
  adding a.png again leaves the store with two entries of the id a.png-1, not one.
\<close>

theorem handleFiles_again_after_double_pick:
  "map id' (selectedFiles (handleFiles (Some [a_png, a_png_twin]) initial)) = [''a.png-1'', ''a.png-1'']
   \<and> selectedFiles (handleFiles (Some [a_png]) (handleFiles (Some [a_png, a_png_twin]) initial)) =
       selectedFiles (handleFiles (Some [a_png, a_png_twin]) initial)
   \<and> map id' (selectedFiles (handleFiles (Some [a_png])
         (handleFiles (Some [a_png, a_png_twin]) initial))) = [''a.png-1'', ''a.png-1'']
   \<and> map id' (selectedFiles (handleFiles (Some [a_png]) (handleFiles (Some [a_png]) initial))) =
       [''a.png-1'']"
  by (simp add: handleFiles_def initial_def a_png_def a_png_twin_def evaluate)



section \<open>Reconciliation: the results mapped onto the staged files\<close>

lemma property_toJson:
  "property (toJson r) ''filename'' = Some (JStr (filename r))"
  "property (toJson r) ''processed_image_b64'' = Some (JStr (processed_image_b64 r))"
  "property (toJson r) ''content_type'' = Some (JStr (content_type r))"
  by (simp_all add: property_def toJson_def)

lemma toJson_not_null: "toJson r \<noteq> JNull"
  by (simp add: toJson_def)

lemma processItem_toJson:
  "processItem selected now (toJson r) i =
     Inr \<lparr>id' = (case find (\<lambda>f. name (file' f) = filename r) selected of
                    Some orig \<Rightarrow> id' orig
                  | None \<Rightarrow> filename r @ ''-'' @ decimal i),
          file' = (case find (\<lambda>f. name (file' f) = filename r) selected of
                    Some orig \<Rightarrow> file' orig
                  | None \<Rightarrow> \<lparr>name = filename r, lastModified = now i, type = [], content = []\<rparr>),
          previewUrl = ''data:'' @ content_type r @ '';base64,'' @ processed_image_b64 r\<rparr>"
  by (simp add: processItem_def property_toJson toJson_not_null String_def Let_def
      split: option.split)

lemma mapIndexed_total:
  "(\<And>x i. x \<in> set xs \<Longrightarrow> f x i = Inr (g x i)) \<Longrightarrow>
     mapIndexed f n xs = Inr (map (\<lambda>(x, i). g x i) (zip xs [n..<n + length xs]))"
proof (induction xs arbitrary: n)
  case Nil
  then show ?case by simp
next
  case (Cons x xs)
  have "mapIndexed f (Suc n) xs = Inr (map (\<lambda>(x, i). g x i) (zip xs [Suc n..<Suc n + length xs]))"
    by (rule Cons.IH) (simp add: Cons.prems)
  moreover have "f x n = Inr (g x n)"
    by (simp add: Cons.prems)
  moreover have "[n..<n + length (x # xs)] = n # [Suc n..<Suc n + length xs]"
    by (simp add: upt_conv_Cons del: upt_Suc)
  ultimately show ?case by simp
qed

lemma newProcessedFiles_typed:
  "newProcessedFiles selected now (JArr (map toJson results)) =
     Inr (map (\<lambda>(r, i). projr (processItem selected now (toJson r) i)) (zip results [0..<length results]))"
proof -
  have "mapIndexed (processItem selected now) 0 (map toJson results) =
      Inr (map (\<lambda>(x, i). projr (processItem selected now x i))
        (zip (map toJson results) [0..<0 + length (map toJson results)]))"
    by (rule mapIndexed_total) (auto simp: processItem_toJson)
  then show ?thesis
    by (simp add: newProcessedFiles_def zip_map1 case_prod_unfold comp_def)
qed

lemma newProcessedFiles_nth:
  assumes "newProcessedFiles selected now (JArr (map toJson results)) = Inr out"
  shows "length out = length results"
    and "i < length results \<Longrightarrow> processItem selected now (toJson (results ! i)) i = Inr (out ! i)"
proof -
  have out: "out = map (\<lambda>(r, i). projr (processItem selected now (toJson r) i)) (zip results [0..<length results])"
    using assms by (simp add: newProcessedFiles_typed)
  show "length out = length results"
    by (simp add: out)
  show "processItem selected now (toJson (results ! i)) i = Inr (out ! i)" if "i < length results"
    using that by (simp add: out processItem_toJson)
qed

lemma find_by_key:
  "distinct (map g xs) \<Longrightarrow> find (\<lambda>f. g f = k) xs = Some e \<longleftrightarrow> e \<in> set xs \<and> g e = k"
proof (induction xs)
  case Nil
  then show ?case by simp
next
  case (Cons x xs)
  then show ?case by (auto simp: image_iff)
qed

lemma find_permuted:
  assumes "distinct (map g xs)" and "mset ys = mset xs"
  shows "find (\<lambda>f. g f = k) ys = find (\<lambda>f. g f = k) xs"
proof -
  have "mset (map g ys) = mset (map g xs)"
    using assms(2) by simp
  then have dy: "distinct (map g ys)"
    using assms(1) by (metis mset_eq_imp_distinct_iff)
  have s: "set ys = set xs"
    using assms(2) by (rule mset_eq_setD)
  show ?thesis
  proof (cases "find (\<lambda>f. g f = k) xs")
    case None
    then have "find (\<lambda>f. g f = k) ys = None"
      by (simp add: find_None_iff s)
    with None show ?thesis by simp
  next
    case (Some e)
    then show ?thesis
      using find_by_key [OF assms(1), of k e] find_by_key [OF dy, of k e] s by simp
  qed
qed

lemma processItem_permuted:
  assumes "distinct (map (\<lambda>f. name (file' f)) staged)" and "mset staged' = mset staged"
  shows "processItem staged' now item i = processItem staged now item i"
proof -
  let ?P = "\<lambda>f. Some (JStr (name (file' f))) = property item ''filename''"
  have "find ?P staged' = find ?P staged"
  proof (cases "\<exists>k. property item ''filename'' = Some (JStr k)")
    case True
    then obtain k where k: "property item ''filename'' = Some (JStr k)" by blast
    have c: "find ?P sel = find (\<lambda>f. name (file' f) = k) sel" for sel :: "ImageFile list"
      by (rule find_cong) (simp_all add: k)
    show ?thesis
      by (simp only: c find_permuted [OF assms, of k])
  next
    case False
    then have "\<forall>f. \<not> ?P f"
      by metis
    then have n: "find ?P sel = None" for sel :: "ImageFile list"
      unfolding find_None_iff by blast
    show ?thesis
      by (simp only: n)
  qed
  then show ?thesis
    unfolding processItem_def by (rule arg_cong)
qed

lemma newProcessedFiles_permuted:
  assumes "distinct (map (\<lambda>f. name (file' f)) staged)" and "mset staged' = mset staged"
  shows "newProcessedFiles staged' now processedData = newProcessedFiles staged now processedData"
proof -
  have "processItem staged' now = processItem staged now"
    using processItem_permuted [OF assms] by (intro ext)
  then show ?thesis
    unfolding newProcessedFiles_def by (rule arg_cong)
qed

text \<open>
  C6. For every staged list and every list of well-typed results the mapping returns (it
  does not throw) exactly one entry per result, and for a result whose file name no staged
  file bears, the entry's id is that file name joined to the decimal index of the result
  (by a hyphen, as the template literal has it), and its file is an empty placeholder of
  that name: no bytes, no media type.
\<close>

theorem newProcessedFiles_one_entry_per_result:
  "\<exists>out. newProcessedFiles staged now (JArr (map toJson results)) = Inr out
     \<and> length out = length results
     \<and> (\<forall>i < length results.
          (\<forall>f \<in> set staged. name (file' f) \<noteq> filename (results ! i)) \<longrightarrow>
            id' (out ! i) = filename (results ! i) @ ''-'' @ decimal i
          \<and> file' (out ! i) =
              \<lparr>name = filename (results ! i), lastModified = now i, type = [], content = []\<rparr>)"
proof -
  obtain out where out: "newProcessedFiles staged now (JArr (map toJson results)) = Inr out"
    by (simp add: newProcessedFiles_typed)
  have "id' (out ! i) = filename (results ! i) @ ''-'' @ decimal i
      \<and> file' (out ! i) = \<lparr>name = filename (results ! i), lastModified = now i, type = [], content = []\<rparr>"
    if i: "i < length results" and none: "\<forall>f \<in> set staged. name (file' f) \<noteq> filename (results ! i)" for i
  proof -
    from none have "find (\<lambda>f. name (file' f) = filename (results ! i)) staged = None"
      unfolding find_None_iff by blast
    with newProcessedFiles_nth(2) [OF out i, symmetric] show ?thesis
      by (simp add: processItem_toJson)
  qed
  with out newProcessedFiles_nth(1) [OF out] show ?thesis
    by blast
qed

theorem newProcessedFiles_one_entry_per_result_witness:
  "\<exists>out. newProcessedFiles staged_ab clock (JArr (map toJson [result_a, result_z])) = Inr out
     \<and> length out = 2
     \<and> map (\<lambda>f. name (file' f)) staged_ab = [''a.png'', ''b.png'']
     \<and> id' (out ! 1) = ''z.png-1''
     \<and> file' (out ! 1) = \<lparr>name = ''z.png'', lastModified = 1001, type = [], content = []\<rparr>"
proof -
  let ?results = "[result_a, result_z]"
  obtain out where out: "newProcessedFiles staged_ab clock (JArr (map toJson ?results)) = Inr out"
    and len: "length out = length ?results"
    and fallback: "\<forall>i < length ?results.
          (\<forall>f \<in> set staged_ab. name (file' f) \<noteq> filename (?results ! i)) \<longrightarrow>
            id' (out ! i) = filename (?results ! i) @ ''-'' @ decimal i
          \<and> file' (out ! i) =
              \<lparr>name = filename (?results ! i), lastModified = clock i, type = [], content = []\<rparr>"
    using newProcessedFiles_one_entry_per_result [of staged_ab clock ?results]
    by blast
  have z: "filename (?results ! 1) = ''z.png''"
    by (simp add: result_z_def)
  have names: "map (\<lambda>f. name (file' f)) staged_ab = [''a.png'', ''b.png'']"
    by (simp add: handleFiles_def staged_ab_def a_png_def b_png_def initial_def evaluate)
  have "\<forall>n \<in> set (map (\<lambda>f. name (file' f)) staged_ab). n \<noteq> ''z.png''"
    unfolding names by simp
  then have unmatched: "\<forall>f \<in> set staged_ab. name (file' f) \<noteq> ''z.png''"
    by simp
  have one: "(1::nat) < length ?results"
    by simp
  have unmatched': "\<forall>f \<in> set staged_ab. name (file' f) \<noteq> filename (?results ! 1)"
    using unmatched by (simp only: z)
  note fallback [rule_format, OF one unmatched' [rule_format]]
  then have fb: "id' (out ! 1) = ''z.png-1''
      \<and> file' (out ! 1) = \<lparr>name = ''z.png'', lastModified = 1001, type = [], content = []\<rparr>"
    by (simp add: result_z_def clock_def evaluate)
  have len2: "length out = 2"
    using len by simp
  show ?thesis
    by (intro exI [of _ out] conjI out len2 names conjunct1 [OF fb] conjunct2 [OF fb])
qed

section \<open>The submission: handleProcessImages\<close>

lemma settle_frame:
  "selectedFiles (handleProcessImages_settle sel now res s) = selectedFiles s"
  "blobUrls (handleProcessImages_settle sel now res s) = blobUrls s"
  "blobCounter (handleProcessImages_settle sel now res s) = blobCounter s"
  by (simp_all add: handleProcessImages_settle_def split: sum.split)

lemma settle_cases:
  "(\<exists>new. tryBlock sel now res = Inr new \<and>
      handleProcessImages_settle sel now res s = s\<lparr>processedFiles := new, status := SUCCESS\<rparr>)
   \<or> (\<exists>m. handleProcessImages_settle sel now res s = s\<lparr>error := Some m, status := ERROR\<rparr>)"
proof (cases "tryBlock sel now res")
  case (Inl err)
  then have "handleProcessImages_settle sel now res s =
      s\<lparr>error := Some (case err of
                          ErrorObject m \<Rightarrow> m
                        | OtherValue \<Rightarrow> ''Failed to process images. Please check the backend server.''),
        status := ERROR\<rparr>"
    by (simp add: handleProcessImages_settle_def)
  then show ?thesis by blast
next
  case (Inr new)
  then show ?thesis
    by (simp add: handleProcessImages_settle_def)
qed

text \<open>
  C9. A run of handleProcessImages on a non-empty staged list leaves the staged list as it
  was, whether it ends in SUCCESS or in ERROR; a run that ends in ERROR changes nothing but
  the status and the error message (the result list and everything else are as before),
  and one that ends in SUCCESS changes the status, the message and the result list only.
  The part of the handler that runs when the response arrives never touches the staged
  list, in whatever state it finds the application.
\<close>

theorem handleProcessImages_frame:
  fixes s :: state and now res
  defines "s' \<equiv> handleProcessImages now res s"
  assumes "hasFilesSelected s"
  shows "selectedFiles s' = selectedFiles s
       \<and> (status s' = SUCCESS \<or> status s' = ERROR)
       \<and> (status s' = ERROR \<longrightarrow> s' = s\<lparr>status := ERROR, error := error s'\<rparr>)
       \<and> (status s' = SUCCESS \<longrightarrow>
            s' = s\<lparr>status := SUCCESS, error := None, processedFiles := processedFiles s'\<rparr>)
       \<and> selectedFiles (handleProcessImages_settle sel now res t) = selectedFiles t"
proof -
  let ?s1 = "s\<lparr>status := PROCESSING, error := None\<rparr>"
  have run: "s' = handleProcessImages_settle (selectedFiles s) now res ?s1"
    using assms(2) by (simp add: s'_def handleProcessImages_def handleProcessImages_send_def)
  from settle_cases [of "selectedFiles s" now res ?s1]
  show ?thesis
  proof (elim disjE exE conjE)
    fix new
    assume "handleProcessImages_settle (selectedFiles s) now res ?s1 =
        ?s1\<lparr>processedFiles := new, status := SUCCESS\<rparr>"
    then show ?thesis
      by (simp add: run settle_frame)
  next
    fix m
    assume "handleProcessImages_settle (selectedFiles s) now res ?s1 =
        ?s1\<lparr>error := Some m, status := ERROR\<rparr>"
    then show ?thesis
      by (simp add: run settle_frame)
  qed
qed

theorem handleProcessImages_frame_witness:
  "hasFilesSelected staged_a
   \<and> handleProcessImages clock (Rejected (ErrorObject ''Failed to fetch'')) staged_a =
       staged_a\<lparr>status := ERROR, error := Some ''Failed to fetch''\<rparr>
   \<and> selectedFiles (handleProcessImages clock (Rejected (ErrorObject ''Failed to fetch'')) staged_a) =
       selectedFiles staged_a"
proof -
  let ?res = "Rejected (ErrorObject ''Failed to fetch'')"
  have h: "hasFilesSelected staged_a"
    by (simp add: hasFilesSelected_def handleFiles_def staged_a_def a_png_def initial_def evaluate)
  note c = handleProcessImages_frame [OF h, of clock ?res]
  have st: "status (handleProcessImages clock ?res staged_a) = ERROR"
    and er: "error (handleProcessImages clock ?res staged_a) = Some ''Failed to fetch''"
    using h by (simp_all add: handleProcessImages_def handleProcessImages_send_def
        handleProcessImages_settle_def tryBlock_def)
  have "handleProcessImages clock ?res staged_a =
      staged_a\<lparr>status := ERROR, error := error (handleProcessImages clock ?res staged_a)\<rparr>"
    using c st by blast
  then have a: "handleProcessImages clock ?res staged_a =
      staged_a\<lparr>status := ERROR, error := Some ''Failed to fetch''\<rparr>"
    by (simp only: er)
  have b: "selectedFiles (handleProcessImages clock ?res staged_a) = selectedFiles staged_a"
    using c by blast
  show ?thesis
    by (intro conjI h a b)
qed

lemma tryBlock_ok:
  "ok r \<Longrightarrow> jsonBody r = Inr processedData \<Longrightarrow>
     tryBlock sel now (Resolved r) = newProcessedFiles sel now processedData"
  by (simp add: tryBlock_def)

lemma handleProcessImages_run:
  "hasFilesSelected s \<Longrightarrow>
     handleProcessImages now res s =
       handleProcessImages_settle (selectedFiles s) now res (s\<lparr>status := PROCESSING, error := None\<rparr>)"
  by (simp add: handleProcessImages_def handleProcessImages_send_def)

text \<open>
  C5. When the submission resolves with a status from 200 to 299 and a body that is an
  array of well-typed results, the run ends in SUCCESS with one entry per result, in the
  order of the results. Each entry's preview is the data URI
  \<^verbatim>\<open>data:{content_type};base64,{processed_image_b64}\<close> of its result, and where a staged
  file bears the result's file name the entry carries the id and the file of a staged
  entry of that name: the first one in the staged list.
\<close>

theorem handleProcessImages_success:
  fixes s :: state and now r results
  defines "s' \<equiv> handleProcessImages now (Resolved r) s"
  assumes "hasFilesSelected s" and "ok r" and "jsonBody r = Inr (JArr (map toJson results))"
  shows "status s' = SUCCESS
       \<and> length (processedFiles s') = length results
       \<and> (\<forall>i < length results.
            previewUrl (processedFiles s' ! i) =
              ''data:'' @ content_type (results ! i) @ '';base64,'' @ processed_image_b64 (results ! i)
          \<and> (\<forall>e. find (\<lambda>f. name (file' f) = filename (results ! i)) (selectedFiles s) = Some e \<longrightarrow>
                id' (processedFiles s' ! i) = id' e \<and> file' (processedFiles s' ! i) = file' e)
          \<and> ((\<exists>e \<in> set (selectedFiles s). name (file' e) = filename (results ! i)) \<longrightarrow>
              (\<exists>e \<in> set (selectedFiles s). name (file' e) = filename (results ! i)
                 \<and> id' (processedFiles s' ! i) = id' e)))"
proof -
  obtain out where out: "newProcessedFiles (selectedFiles s) now (JArr (map toJson results)) = Inr out"
    by (simp add: newProcessedFiles_typed)
  then have "tryBlock (selectedFiles s) now (Resolved r) = Inr out"
    using assms(3,4) by (simp add: tryBlock_ok)
  then have s': "s' = s\<lparr>status := SUCCESS, error := None, processedFiles := out\<rparr>"
    using assms(2) by (simp add: s'_def handleProcessImages_run handleProcessImages_settle_def)
  have len: "length out = length results"
    using out by (rule newProcessedFiles_nth(1))
  have each: "previewUrl (out ! i) =
              ''data:'' @ content_type (results ! i) @ '';base64,'' @ processed_image_b64 (results ! i)
          \<and> (\<forall>e. find (\<lambda>f. name (file' f) = filename (results ! i)) (selectedFiles s) = Some e \<longrightarrow>
                id' (out ! i) = id' e \<and> file' (out ! i) = file' e)
          \<and> ((\<exists>e \<in> set (selectedFiles s). name (file' e) = filename (results ! i)) \<longrightarrow>
              (\<exists>e \<in> set (selectedFiles s). name (file' e) = filename (results ! i)
                 \<and> id' (out ! i) = id' e))"
    if i: "i < length results" for i
  proof -
    let ?found = "find (\<lambda>f. name (file' f) = filename (results ! i)) (selectedFiles s)"
    note item = newProcessedFiles_nth(2) [OF out i, symmetric]
    have url: "previewUrl (out ! i) =
        ''data:'' @ content_type (results ! i) @ '';base64,'' @ processed_image_b64 (results ! i)"
      using item by (simp add: processItem_toJson)
    have first: "id' (out ! i) = id' e \<and> file' (out ! i) = file' e" if "?found = Some e" for e
      using item that by (simp add: processItem_toJson)
    have some: "\<exists>e \<in> set (selectedFiles s). name (file' e) = filename (results ! i) \<and> id' (out ! i) = id' e"
      if "\<exists>e \<in> set (selectedFiles s). name (file' e) = filename (results ! i)"
    proof -
      from that have "?found \<noteq> None"
        unfolding find_None_iff by blast
      then obtain e where e: "?found = Some e"
        by blast
      then have "e \<in> set (selectedFiles s) \<and> name (file' e) = filename (results ! i)"
        unfolding find_Some_iff by (metis nth_mem)
      with first [OF e] show ?thesis
        by blast
    qed
    from url first some show ?thesis
      by blast
  qed
  show ?thesis
    using len each by (simp add: s')
qed

theorem handleProcessImages_success_witness:
  "hasFilesSelected staged_a \<and> ok response_200
   \<and> jsonBody response_200 = Inr (JArr (map toJson [result_a]))
   \<and> status (handleProcessImages clock (Resolved response_200) staged_a) = SUCCESS
   \<and> length (processedFiles (handleProcessImages clock (Resolved response_200) staged_a)) = 1
   \<and> previewUrl (processedFiles (handleProcessImages clock (Resolved response_200) staged_a) ! 0) =
       ''data:image/png;base64,AA==''
   \<and> id' (processedFiles (handleProcessImages clock (Resolved response_200) staged_a) ! 0) = ''a.png-1''"
proof -
  let ?s' = "handleProcessImages clock (Resolved response_200) staged_a"
  have h: "hasFilesSelected staged_a"
    by (simp add: hasFilesSelected_def handleFiles_def staged_a_def a_png_def initial_def evaluate)
  have k: "ok response_200"
    by (simp add: ok_def response_200_def)
  have b: "jsonBody response_200 = Inr (JArr (map toJson [result_a]))"
    by (simp add: response_200_def)
  note c = handleProcessImages_success [OF h k b, of clock]
  have st: "status ?s' = SUCCESS"
    using c by (rule conjunct1)
  have len: "length (processedFiles ?s') = 1"
    using conjunct1 [OF conjunct2 [OF c]] by simp
  note each = conjunct2 [OF conjunct2 [OF c], rule_format, of 0, simplified]
  have url: "previewUrl (processedFiles ?s' ! 0) = ''data:image/png;base64,AA==''"
    using conjunct1 [OF each] by (simp add: result_a_def)
  have "find (\<lambda>f. name (file' f) = filename result_a) (selectedFiles staged_a) =
      Some \<lparr>id' = ''a.png-1'', file' = a_png, previewUrl = ''blob:0''\<rparr>"
    by (simp add: handleFiles_def staged_a_def a_png_def initial_def result_a_def evaluate)
  with conjunct1 [OF conjunct2 [OF each]] have idf: "id' (processedFiles ?s' ! 0) = ''a.png-1''"
    by simp
  show ?thesis
    by (intro conjI h k b st len url idf)
qed

text \<open>
  C7. When the staged files have pairwise distinct names, the mapping of the results gives
  the same output for every reordering of the staged list, and the output follows the
  results: the entry at position \<open>i\<close> bears the file name and the data URI of the result
  at position \<open>i\<close>, and the id and the file of the staged entry of that name, if there is
  one.
\<close>

theorem newProcessedFiles_staged_order_irrelevant:
  assumes "distinct (map (\<lambda>f. name (file' f)) staged)" and "mset staged' = mset staged"
  shows "newProcessedFiles staged' now processedData = newProcessedFiles staged now processedData
       \<and> (\<exists>out. newProcessedFiles staged' now (JArr (map toJson results)) = Inr out
            \<and> length out = length results
            \<and> (\<forall>i < length results.
                  name (file' (out ! i)) = filename (results ! i)
                \<and> previewUrl (out ! i) =
                    ''data:'' @ content_type (results ! i) @ '';base64,'' @ processed_image_b64 (results ! i)
                \<and> (\<forall>e \<in> set staged. name (file' e) = filename (results ! i) \<longrightarrow>
                      id' (out ! i) = id' e \<and> file' (out ! i) = file' e)))"
proof -
  have same: "newProcessedFiles staged' now pd = newProcessedFiles staged now pd" for pd
    using assms by (rule newProcessedFiles_permuted)
  obtain out where out: "newProcessedFiles staged now (JArr (map toJson results)) = Inr out"
    by (simp add: newProcessedFiles_typed)
  have len: "length out = length results"
    using out by (rule newProcessedFiles_nth(1))
  have each: "name (file' (out ! i)) = filename (results ! i)
      \<and> previewUrl (out ! i) =
          ''data:'' @ content_type (results ! i) @ '';base64,'' @ processed_image_b64 (results ! i)
      \<and> (\<forall>e \<in> set staged. name (file' e) = filename (results ! i) \<longrightarrow>
            id' (out ! i) = id' e \<and> file' (out ! i) = file' e)"
    if i: "i < length results" for i
  proof -
    let ?found = "find (\<lambda>f. name (file' f) = filename (results ! i)) staged"
    note item = newProcessedFiles_nth(2) [OF out i, symmetric]
    have nm: "name (file' (out ! i)) = filename (results ! i)"
    proof (cases ?found)
      case None
      with item show ?thesis by (simp add: processItem_toJson)
    next
      case (Some e)
      then have "name (file' e) = filename (results ! i)"
        unfolding find_Some_iff by blast
      with item Some show ?thesis by (simp add: processItem_toJson)
    qed
    have url: "previewUrl (out ! i) =
        ''data:'' @ content_type (results ! i) @ '';base64,'' @ processed_image_b64 (results ! i)"
      using item by (simp add: processItem_toJson)
    have the_one: "id' (out ! i) = id' e \<and> file' (out ! i) = file' e"
      if "e \<in> set staged" and "name (file' e) = filename (results ! i)" for e
    proof -
      from that have "?found = Some e"
        using find_by_key [OF assms(1), of "filename (results ! i)" e] by simp
      with item show ?thesis by (simp add: processItem_toJson)
    qed
    from nm url the_one show ?thesis
      by blast
  qed
  show ?thesis
    using same out len each by (simp add: same)
qed

theorem newProcessedFiles_staged_order_irrelevant_witness:
  "distinct (map (\<lambda>f. name (file' f)) staged_ab) \<and> mset (rev staged_ab) = mset staged_ab
   \<and> newProcessedFiles (rev staged_ab) clock (JArr (map toJson [result_b, result_a])) =
       newProcessedFiles staged_ab clock (JArr (map toJson [result_b, result_a]))
   \<and> newProcessedFiles staged_ab clock (JArr (map toJson [result_b, result_a])) =
       Inr [\<lparr>id' = ''b.png-2'', file' = b_png, previewUrl = ''data:image/png;base64,BB==''\<rparr>,
            \<lparr>id' = ''a.png-1'', file' = a_png, previewUrl = ''data:image/png;base64,AA==''\<rparr>]"
proof -
  have d: "distinct (map (\<lambda>f. name (file' f)) staged_ab)"
    by (simp add: handleFiles_def staged_ab_def a_png_def b_png_def initial_def evaluate)
  have m: "mset (rev staged_ab) = mset staged_ab"
    by simp
  have same: "newProcessedFiles (rev staged_ab) clock (JArr (map toJson [result_b, result_a])) =
       newProcessedFiles staged_ab clock (JArr (map toJson [result_b, result_a]))"
    using newProcessedFiles_staged_order_irrelevant [OF d m] by (rule conjunct1)
  have out: "newProcessedFiles staged_ab clock (JArr (map toJson [result_b, result_a])) =
       Inr [\<lparr>id' = ''b.png-2'', file' = b_png, previewUrl = ''data:image/png;base64,BB==''\<rparr>,
            \<lparr>id' = ''a.png-1'', file' = a_png, previewUrl = ''data:image/png;base64,AA==''\<rparr>]"
    by (simp add: newProcessedFiles_def processItem_def toJson_def property_def String_def
        handleFiles_def staged_ab_def a_png_def b_png_def initial_def result_a_def result_b_def clock_def evaluate)
  show ?thesis
    by (intro conjI d m same out)
qed

lemma settle_not_ok:
  "\<not> ok r \<Longrightarrow>
     handleProcessImages_settle sel now (Resolved r) s =
       s\<lparr>error := Some (case notOk r of
                          ErrorObject m \<Rightarrow> m
                        | OtherValue \<Rightarrow> ''Failed to process images. Please check the backend server.''),
         status := ERROR\<rparr>"
  by (simp add: handleProcessImages_settle_def tryBlock_def)

text \<open>
  C3, as stated, fails for a body that cannot be parsed: the \<^verbatim>\<open>catch\<close> on
  \<^verbatim>\<open>response.json()\<close> substitutes an object whose \<^verbatim>\<open>detail\<close> is a fixed sentence, and that
  sentence, which holds no status code, becomes the message. Status 500 with a body that
  is not JSON:
\<close>

theorem unparseable_error_body_message:
  "error (handleProcessImages clock (Resolved response_500_html) staged_a) =
     Some ''An unknown error occurred on the server.''
   \<and> CHR ''5'' \<notin> set ''An unknown error occurred on the server.''"
  by (simp add: handleProcessImages_def handleProcessImages_send_def handleProcessImages_settle_def
      tryBlock_def notOk_def ok_def property_def String_def hasFilesSelected_def handleFiles_def
      staged_a_def a_png_def initial_def response_500_html_def evaluate)

text \<open>
  C3, amended. For every response with a status outside 200..299 the workflow enters ERROR
  and the result list and the staged list stay as they were (no partial result is stored).
  The message is the body's \<^verbatim>\<open>detail\<close> when the body is JSON with a non-empty string
  there; the fixed sentence "An unknown error occurred on the server." when the body
  cannot be parsed; and the sentence that embeds the numeric status code when the body is
  JSON (other than \<^verbatim>\<open>null\<close>) with no \<^verbatim>\<open>detail\<close> or a falsy one.
\<close>

theorem handleProcessImages_not_ok:
  fixes s :: state and sel now r
  defines "s' \<equiv> handleProcessImages_settle sel now (Resolved r) s"
  assumes "\<not> ok r"
  shows "status s' = ERROR
       \<and> processedFiles s' = processedFiles s
       \<and> selectedFiles s' = selectedFiles s
       \<and> (\<forall>j m. jsonBody r = Inr j \<and> property j ''detail'' = Some (JStr m) \<and> m \<noteq> [] \<longrightarrow>
             error s' = Some m)
       \<and> (\<forall>e. jsonBody r = Inl e \<longrightarrow> error s' = Some ''An unknown error occurred on the server.'')
       \<and> (\<forall>j. jsonBody r = Inr j \<and> j \<noteq> JNull \<and> \<not> truthy (property j ''detail'') \<longrightarrow>
             error s' = Some (''Server responded with status: '' @ decimal (statusCode r)))
       \<and> (hasFilesSelected s \<longrightarrow>
             handleProcessImages now (Resolved r) s = s\<lparr>status := ERROR, error := error s'\<rparr>)"
proof -
  have s': "s' = s\<lparr>error := Some (case notOk r of
                          ErrorObject m \<Rightarrow> m
                        | OtherValue \<Rightarrow> ''Failed to process images. Please check the backend server.''),
         status := ERROR\<rparr>"
    unfolding s'_def using assms(2) by (rule settle_not_ok)
  have detail: "error s' = Some m"
    if "jsonBody r = Inr j" and "property j ''detail'' = Some (JStr m)" and "m \<noteq> []" for j m
  proof -
    from that(2) have "j \<noteq> JNull"
      by (auto simp: property_def)
    with that show ?thesis
      by (simp add: s' notOk_def String_def)
  qed
  have unparsed: "error s' = Some ''An unknown error occurred on the server.''"
    if "jsonBody r = Inl e" for e
    using that by (simp add: s' notOk_def String_def property_def)
  have nodetail: "error s' = Some (''Server responded with status: '' @ decimal (statusCode r))"
    if "jsonBody r = Inr j" and "j \<noteq> JNull" and "\<not> truthy (property j ''detail'')" for j
    using that by (simp add: s' notOk_def)
  have run: "handleProcessImages now (Resolved r) s = s\<lparr>status := ERROR, error := error s'\<rparr>"
    if "hasFilesSelected s"
    using that assms(2) by (simp add: handleProcessImages_run settle_not_ok s')
  show ?thesis
    using detail unparsed nodetail run by (simp add: s')
qed

theorem handleProcessImages_not_ok_witness:
  "\<not> ok response_500
   \<and> error (handleProcessImages_settle (selectedFiles staged_a) clock (Resolved response_500) staged_a) =
       Some ''model unavailable''
   \<and> status (handleProcessImages_settle (selectedFiles staged_a) clock (Resolved response_500) staged_a) = ERROR
   \<and> \<not> ok response_500_empty
   \<and> error (handleProcessImages_settle (selectedFiles staged_a) clock (Resolved response_500_empty) staged_a) =
       Some ''Server responded with status: 500''"
proof -
  have n: "\<not> ok response_500"
    by (simp add: ok_def response_500_def)
  note c = handleProcessImages_not_ok [OF n, of "selectedFiles staged_a" clock staged_a]
  have st: "status (handleProcessImages_settle (selectedFiles staged_a) clock (Resolved response_500) staged_a) = ERROR"
    using c by (rule conjunct1)
  have "jsonBody response_500 = Inr (JObj [(''detail'', JStr ''model unavailable'')])
      \<and> property (JObj [(''detail'', JStr ''model unavailable'')]) ''detail'' = Some (JStr ''model unavailable'')
      \<and> ''model unavailable'' \<noteq> []"
    by (simp add: response_500_def property_def)
  with c have er: "error (handleProcessImages_settle (selectedFiles staged_a) clock (Resolved response_500) staged_a) =
       Some ''model unavailable''"
    by blast
  have n': "\<not> ok response_500_empty"
    by (simp add: ok_def response_500_empty_def)
  note c' = handleProcessImages_not_ok [OF n', of "selectedFiles staged_a" clock staged_a]
  have "jsonBody response_500_empty = Inr (JObj []) \<and> JObj [] \<noteq> JNull
      \<and> \<not> truthy (property (JObj []) ''detail'')"
    by (simp add: response_500_empty_def property_def)
  with c' have "error (handleProcessImages_settle (selectedFiles staged_a) clock (Resolved response_500_empty) staged_a) =
       Some (''Server responded with status: '' @ decimal (statusCode response_500_empty))"
    by blast
  then have er': "error (handleProcessImages_settle (selectedFiles staged_a) clock (Resolved response_500_empty) staged_a) =
       Some ''Server responded with status: 500''"
    by (simp add: response_500_empty_def evaluate)
  show ?thesis
    by (intro conjI n st er n' er')
qed

section \<open>Re-entrancy and reset\<close>

text \<open>
  C2, as stated, fails for the handler: handleProcessImages tests only whether files are
  selected, never the status. Called again in the PROCESSING state that its first call
  left, with a.png staged, it posts the files a second time.
\<close>

theorem submit_while_processing_sends_again:
  "status (fst (handleProcessImages_send staged_a)) = PROCESSING
   \<and> snd (handleProcessImages_send (fst (handleProcessImages_send staged_a))) =
       Some [(''files'', ''A'', ''a.png'')]"
  by (simp add: handleProcessImages_send_def hasFilesSelected_def handleFiles_def staged_a_def a_png_def initial_def evaluate)

text \<open>
  C2, amended. The guard against a second submission is the view's, not the handler's. In
  PROCESSING the page shows no Process button (and the button carries
  \<^verbatim>\<open>disabled={isProcessing}\<close>), so a click on it reaches no handler: nothing is sent and
  the state is unchanged. The handler itself, called in PROCESSING with a non-empty staged
  list, sends a new request and sets the error message to \<^verbatim>\<open>null\<close>; the staged list, the
  result list and the status stay as they were. With an empty staged list it does nothing.
\<close>

theorem submit_while_processing:
  assumes "status s = PROCESSING"
  shows "dispatch ClickProcess s = (s, None)
       \<and> handleProcessImages_send s =
           (if hasFilesSelected s
            then (s\<lparr>error := None\<rparr>,
                  Some (map (\<lambda>imageFile. (''files'', content (file' imageFile), name (file' imageFile)))
                     (selectedFiles s)))
            else (s, None))"
proof -
  have "renderContent s = []"
    using assms by (simp add: renderContent_def)
  then have click: "dispatch ClickProcess s = (s, None)"
    by (simp add: dispatch_def)
  have "s\<lparr>status := PROCESSING, error := None\<rparr> = s\<lparr>error := None\<rparr>"
    using assms by simp
  then have "handleProcessImages_send s =
           (if hasFilesSelected s
            then (s\<lparr>error := None\<rparr>,
                  Some (map (\<lambda>imageFile. (''files'', content (file' imageFile), name (file' imageFile)))
                     (selectedFiles s)))
            else (s, None))"
    by (simp add: handleProcessImages_send_def)
  with click show ?thesis
    by (rule conjI)
qed

theorem submit_while_processing_witness:
  "status (staged_a\<lparr>status := PROCESSING\<rparr>) = PROCESSING
   \<and> dispatch ClickProcess (staged_a\<lparr>status := PROCESSING\<rparr>) = (staged_a\<lparr>status := PROCESSING\<rparr>, None)
   \<and> handleProcessImages_send (staged_a\<lparr>status := PROCESSING\<rparr>) =
       (staged_a\<lparr>status := PROCESSING\<rparr>, Some [(''files'', ''A'', ''a.png'')])"
proof -
  let ?s = "staged_a\<lparr>status := PROCESSING\<rparr>"
  have p: "status ?s = PROCESSING"
    by simp
  note c = submit_while_processing [OF p]
  have click: "dispatch ClickProcess ?s = (?s, None)"
    using c by (rule conjunct1)
  have h: "hasFilesSelected ?s"
    by (simp add: hasFilesSelected_def handleFiles_def staged_a_def a_png_def initial_def evaluate)
  have e: "?s\<lparr>error := None\<rparr> = ?s"
    by (simp add: handleFiles_def staged_a_def a_png_def initial_def)
  have f: "map (\<lambda>imageFile. (''files'', content (file' imageFile), name (file' imageFile)))
      (selectedFiles ?s) = [(''files'', ''A'', ''a.png'')]"
    by (simp add: handleFiles_def staged_a_def a_png_def initial_def evaluate)
  have "handleProcessImages_send ?s = (?s, Some [(''files'', ''A'', ''a.png'')])"
    using conjunct2 [OF c] h by (simp only: e f if_True)
  with p click show ?thesis
    by (intro conjI)
qed

text \<open>
  C4, as stated, fails: nothing in the application calls \<^verbatim>\<open>URL.revokeObjectURL\<close>. After
  a.png is staged and the application is reset, the store is empty and the object URL of
  its preview is still allocated.
\<close>

theorem reset_keeps_object_urls:
  "map previewUrl (selectedFiles staged_a) = [''blob:0'']
   \<and> selectedFiles (handleReset staged_a) = []
   \<and> blobUrls (handleReset staged_a) = [''blob:0'']"
  by (simp add: handleReset_def handleFiles_def staged_a_def a_png_def initial_def evaluate)

text \<open>
  C4, amended. handleReset empties the staged list (and the result list, and returns to
  IDLE with no message), and the button Clear Selection empties the staged list; neither
  releases a preview: the object URLs allocated before are all still allocated after. No
  handler of the application releases one: every user event and every settling of a
  request leaves the allocated URLs in place, at most adding new ones.
\<close>

theorem no_handler_releases_previews:
  "selectedFiles (handleReset s) = [] \<and> processedFiles (handleReset s) = []
   \<and> status (handleReset s) = IDLE \<and> error (handleReset s) = None
   \<and> blobUrls (handleReset s) = blobUrls s
   \<and> selectedFiles (clearSelection s) = [] \<and> blobUrls (clearSelection s) = blobUrls s
   \<and> (\<exists>new. blobUrls (fst (handler e s)) = blobUrls s @ new)
   \<and> blobUrls (handleProcessImages_settle sel now res s) = blobUrls s"
proof -
  have "\<exists>new. blobUrls (fst (handler e s)) = blobUrls s @ new"
  proof (cases e)
    case (PickFiles files)
    then show ?thesis
      by (cases files) (simp_all add: handleFiles_def Let_def)
  next
    case ClickClearSelection
    then show ?thesis by (simp add: clearSelection_def)
  next
    case ClickProcess
    then show ?thesis by (simp add: handleProcessImages_send_def)
  next
    case ClickProcessMore
    then show ?thesis by (simp add: handleReset_def)
  qed
  then show ?thesis
    by (simp add: handleReset_def clearSelection_def settle_frame)
qed

end
